theory Spec2Isabelle
  imports Main "HOL-Library.Sublist"
begin

section \<open>Emirates card processor: a shallow embedding of main.py\<close>

text \<open>
  The program is a Streamlit script. On each run it loads six secrets, builds two cloud
  clients, renders a form with two file uploaders and a button, and, when the button was
  pressed with both files present, uploads the two images, runs OCR on each, asks a
  question-answering chain one question per card side, parses the two answers as JSON
  and renders the fields.

  Every library call that leaves the program (object store, OCR loader, text splitter,
  embeddings, vector index, chain) is a parameter of the model: a function from the
  state of the outside world to a result or an exception and a new state of the world.
  The model records the external calls and the user-visible events in two logs.
\<close>

subsection \<open>Exceptions\<close>

text \<open>
  Python exceptions are values. Only the classes the program tells apart are kept:
  \<open>NoCredentialsError\<close> (caught in \<open>upload_to_s3\<close>), \<open>JSONDecodeError\<close> (caught around
  the display), and the ones the program's own expressions raise.
  \<open>SecretNotFoundError\<close> is the error Streamlit raises on any access to \<open>st.secrets\<close> when
  no secrets source exists. \<open>OtherException\<close> is any other subclass of \<open>Exception\<close>. The
  string is what \<open>str(e)\<close> gives.
\<close>

datatype exn_class =
    ValueError | KeyError | IndexError | AttributeError
  | JSONDecodeError | NoCredentialsError | SecretNotFoundError | OtherException

datatype exn = Exn exn_class string

fun str_exn :: "exn \<Rightarrow> string" where
  "str_exn (Exn c m) = m"

subsection \<open>get_secrets (lines 14 to 28)\<close>

definition required_secrets :: "string list" where
  "required_secrets =
     [''OPENAI_API_KEY'', ''LLAMA_CLOUD_API_KEY'', ''AWS_ACCESS_KEY'',
      ''AWS_SECRET_KEY'', ''AWS_BUCKET_NAME'', ''AWS_REGION'']"

text \<open>\<open>sep.join(xs)\<close> of Python.\<close>

fun join_str :: "string \<Rightarrow> string list \<Rightarrow> string" where
  "join_str sep [] = []"
| "join_str sep [x] = x"
| "join_str sep (x # y # ys) = x @ sep @ join_str sep (y # ys)"

text \<open>\<open>d[k]\<close> on a dictionary: a missing key raises \<open>KeyError\<close>.\<close>

definition subscript :: "(string \<rightharpoonup> string) \<Rightarrow> string \<Rightarrow> exn + string" where
  "subscript d k = (case d k of None \<Rightarrow> Inl (Exn KeyError k) | Some v \<Rightarrow> Inr v)"

text \<open>
  \<open>st.secrets\<close> is not a dictionary but an object of Streamlit that reads the secrets
  source on first use. Either no source exists, and then every access, the membership
  test included, raises Streamlit's not-found error with some message, or the source
  gives a mapping from names to values.
\<close>

datatype st_secrets = NoSecrets string | Secrets "string \<rightharpoonup> string"

text \<open>\<open>secret in st.secrets\<close>.\<close>

fun secrets_contains :: "st_secrets \<Rightarrow> string \<Rightarrow> exn + bool" where
  "secrets_contains (NoSecrets m) k = Inl (Exn SecretNotFoundError m)"
| "secrets_contains (Secrets d) k = Inr (d k \<noteq> None)"

text \<open>\<open>st.secrets[secret]\<close>.\<close>

fun secrets_getitem :: "st_secrets \<Rightarrow> string \<Rightarrow> exn + string" where
  "secrets_getitem (NoSecrets m) k = Inl (Exn SecretNotFoundError m)"
| "secrets_getitem (Secrets d) k = subscript d k"

text \<open>The comprehension \<open>{secret: st.secrets[secret] for secret in ks}\<close>.\<close>

fun dict_comp :: "st_secrets \<Rightarrow> string list \<Rightarrow> exn + (string \<rightharpoonup> string)" where
  "dict_comp st [] = Inr Map.empty"
| "dict_comp st (k # ks) =
     (case secrets_getitem st k of
        Inl e \<Rightarrow> Inl e
      | Inr v \<Rightarrow> (case dict_comp st ks of Inl e \<Rightarrow> Inl e | Inr m \<Rightarrow> Inr (m(k \<mapsto> v))))"

text \<open>
  The comprehension \<open>[secret for secret in ks if secret not in st.secrets]\<close>: the
  membership test runs once for every name, in order, and the first one that raises ends
  the comprehension.
\<close>

fun missing_secrets :: "st_secrets \<Rightarrow> string list \<Rightarrow> exn + string list" where
  "missing_secrets st [] = Inr []"
| "missing_secrets st (k # ks) =
     (case secrets_contains st k of
        Inl e \<Rightarrow> Inl e
      | Inr present \<Rightarrow>
          (case missing_secrets st ks of
             Inl e \<Rightarrow> Inl e
           | Inr ms \<Rightarrow> Inr (if present then ms else k # ms)))"

definition get_secrets :: "st_secrets \<Rightarrow> exn + (string \<rightharpoonup> string)" where
  "get_secrets st =
     (case missing_secrets st required_secrets of
        Inl e \<Rightarrow> Inl e
      | Inr missing \<Rightarrow>
          if missing \<noteq> []
          then Inl (Exn ValueError (''Missing required secrets: '' @ join_str '', '' missing))
          else dict_comp st required_secrets)"

subsection \<open>The outside world, the logs and the program monad\<close>

type_synonym file_obj = string

text \<open>A document of the OCR loader; only its \<open>page_content\<close> is read.\<close>

datatype document = Document (page_content: string)

text \<open>What \<open>json.loads\<close> returns; an object is the list of the items of the dictionary.\<close>

datatype json =
    JObject "(string \<times> json) list"
  | JArray "json list"
  | JString string
  | JInt int
  | JFloat string
  | JBool bool
  | JNull

text \<open>
  The external calls, with their arguments: \<open>s3_client.upload_fileobj(file, bucket, key)\<close>,
  \<open>AmazonTextractPDFLoader(path, client).load()\<close>,
  \<open>RecursiveCharacterTextSplitter(chunk_size, chunk_overlap, len).split_text(text)\<close>,
  \<open>OpenAIEmbeddings()\<close>, \<open>FAISS.from_texts(texts, embeddings)\<close>,
  \<open>load_qa_chain(OpenAI(), "stuff")\<close>, \<open>docsearch.similarity_search(query)\<close> and
  \<open>chain.run(input_documents, question)\<close>; and, at module level, \<open>os.environ[name] = value\<close>
  and \<open>boto3.client(service, aws_access_key_id, aws_secret_access_key, region_name)\<close>.
\<close>

datatype call =
    UploadFileobj file_obj string string
  | TextractLoad string
  | SplitText nat nat string
  | NewEmbeddings
  | FromTexts "string list"
  | LoadQaChain
  | SimilaritySearch string
  | ChainRun "document list" string
  | SetEnviron string string
  | Boto3Client string string string string

text \<open>The Streamlit calls of lines 189 to 252 that show something to the user.\<close>

datatype ui_event =
    Spinner string
  | StError string
  | StWarning string
  | Columns nat
  | Heading string
  | Field string json

type_synonym ('w, 'a) ext = "'w \<Rightarrow> (exn + 'a) \<times> 'w"

record 'w services =
  upload_fileobj :: "file_obj \<Rightarrow> string \<Rightarrow> string \<Rightarrow> ('w, unit) ext"
  textract_load :: "string \<Rightarrow> ('w, document list) ext"
  split_text :: "nat \<Rightarrow> nat \<Rightarrow> string \<Rightarrow> ('w, string list) ext"
  openai_embeddings :: "('w, unit) ext"
  faiss_from_texts :: "string list \<Rightarrow> ('w, unit) ext"
  load_qa_chain :: "('w, unit) ext"
  similarity_search :: "string \<Rightarrow> ('w, document list) ext"
  chain_run :: "document list \<Rightarrow> string \<Rightarrow> ('w, string) ext"
  json_loads :: "string \<Rightarrow> string + json"
  set_environ :: "string \<Rightarrow> string \<Rightarrow> ('w, unit) ext"
  boto3_client :: "string \<Rightarrow> string \<Rightarrow> string \<Rightarrow> string \<Rightarrow> ('w, unit) ext"

record 'w state =
  world :: 'w
  calls :: "call list"
  ui :: "ui_event list"

type_synonym ('w, 'a) prog = "'w state \<Rightarrow> (exn + 'a) \<times> 'w state"

definition ret :: "'a \<Rightarrow> ('w, 'a) prog" where
  "ret a = (\<lambda>s. (Inr a, s))"

definition raise :: "exn \<Rightarrow> ('w, 'a) prog" where
  "raise e = (\<lambda>s. (Inl e, s))"

definition andthen :: "('w, 'a) prog \<Rightarrow> ('a \<Rightarrow> ('w, 'b) prog) \<Rightarrow> ('w, 'b) prog" where
  "andthen m k = (\<lambda>s. case m s of (Inl e, s') \<Rightarrow> (Inl e, s') | (Inr a, s') \<Rightarrow> k a s')"

definition try_except :: "('w, 'a) prog \<Rightarrow> (exn \<Rightarrow> ('w, 'a) prog) \<Rightarrow> ('w, 'a) prog" where
  "try_except m h = (\<lambda>s. case m s of (Inl e, s') \<Rightarrow> h e s' | (Inr a, s') \<Rightarrow> (Inr a, s'))"

definition lift :: "exn + 'a \<Rightarrow> ('w, 'a) prog" where
  "lift r = (\<lambda>s. (r, s))"

definition extcall :: "call \<Rightarrow> ('w, 'a) ext \<Rightarrow> ('w, 'a) prog" where
  "extcall c f =
     (\<lambda>s. case f (world s) of (r, w') \<Rightarrow> (r, s\<lparr>world := w', calls := calls s @ [c]\<rparr>))"

definition emit :: "ui_event \<Rightarrow> ('w, unit) prog" where
  "emit ev = (\<lambda>s. (Inr (), s\<lparr>ui := ui s @ [ev]\<rparr>))"

subsection \<open>upload_to_s3 (lines 49 to 55)\<close>

text \<open>
  \<open>secrets\<close> is the module-level dictionary returned by \<open>get_secrets\<close>. Only
  \<open>NoCredentialsError\<close> is caught; any other exception of the upload leaves the function.
\<close>

definition upload_to_s3 ::
  "'w services \<Rightarrow> (string \<rightharpoonup> string) \<Rightarrow> file_obj \<Rightarrow> string \<Rightarrow> string \<Rightarrow> ('w, string option) prog" where
  "upload_to_s3 srv secrets fileobj filename folder =
     try_except
       (let s3_path = folder @ ''/'' @ filename in
        andthen (lift (subscript secrets ''AWS_BUCKET_NAME'')) (\<lambda>bucket.
        andthen (extcall (UploadFileobj fileobj bucket s3_path)
                   (upload_fileobj srv fileobj bucket s3_path)) (\<lambda>_.
        andthen (lift (subscript secrets ''AWS_BUCKET_NAME'')) (\<lambda>bucket'.
        ret (Some (''s3://'' @ bucket' @ ''/'' @ s3_path))))))
       (\<lambda>e. case e of Exn NoCredentialsError m \<Rightarrow> ret None | _ \<Rightarrow> raise e)"

subsection \<open>process_and_query (lines 57 to 64)\<close>

definition process_and_query :: "'w services \<Rightarrow> string \<Rightarrow> string \<Rightarrow> ('w, string) prog" where
  "process_and_query srv text query =
     andthen (extcall (SplitText 512 32 text) (split_text srv 512 32 text)) (\<lambda>texts.
     andthen (extcall NewEmbeddings (openai_embeddings srv)) (\<lambda>_.
     andthen (extcall (FromTexts texts) (faiss_from_texts srv texts)) (\<lambda>_.
     andthen (extcall LoadQaChain (load_qa_chain srv)) (\<lambda>_.
     andthen (extcall (SimilaritySearch query) (similarity_search srv query)) (\<lambda>docs.
     extcall (ChainRun docs query) (chain_run srv docs query))))))"

subsection \<open>process_card_side (lines 66 to 69)\<close>

text \<open>\<open>documents[0]\<close> raises \<open>IndexError\<close> on an empty list.\<close>

definition process_card_side :: "'w services \<Rightarrow> string \<Rightarrow> ('w, string) prog" where
  "process_card_side srv file_path =
     andthen (extcall (TextractLoad file_path) (textract_load srv file_path)) (\<lambda>documents.
       case documents of
         [] \<Rightarrow> raise (Exn IndexError ''list index out of range'')
       | d # ds \<Rightarrow> ret (page_content d))"

subsection \<open>main, from the button on (lines 189 to 252)\<close>

text \<open>
  The page layout of lines 72 to 187 shows nothing that depends on the request. The model
  starts at line 189 with the values of the three widgets.
\<close>

record request =
  process_button :: bool
  front_file :: "file_obj option"
  back_file :: "file_obj option"

text \<open>The two prompts; the lines after the first are indented by 24 spaces in the source.\<close>

definition nl :: string where
  "nl = CHR 0x0A # replicate 24 (CHR '' '')"

definition front_query :: string where
  "front_query =
     ''Extract the following information from the given text as key-value pairs:'' @ nl @
     ''Full Name (list both given name and full name)'' @ nl @
     ''Card ID Number (format: ###-####-#######-#)'' @ nl @
     ''Date of Birth (format: DD/MM/YYYY)'' @ nl @
     ''Issue Date (format: DD/MM/YYYY)'' @ nl @
     ''Expiry Date (format: DD/MM/YYYY)'' @ nl @
     ''Please return only these five fields in JSON format.''"

definition back_query :: string where
  "back_query =
     ''Extract the following from the text as key-value pairs:'' @ nl @
     ''Occupation'' @ nl @
     ''Employer name (starting with '' @ [CHR 0x27] @ ''Employer:'' @ [CHR 0x27] @ '')'' @ nl @
     ''Return these two fields in JSON format, ignoring any other text.''"

text \<open>\<open>json.loads\<close>: the service says whether the string parses.\<close>

definition loads :: "'w services \<Rightarrow> string \<Rightarrow> exn + json" where
  "loads srv s = (case json_loads srv s of Inl m \<Rightarrow> Inl (Exn JSONDecodeError m) | Inr j \<Rightarrow> Inr j)"

fun type_name :: "json \<Rightarrow> string" where
  "type_name (JObject kvs) = ''dict''"
| "type_name (JArray xs) = ''list''"
| "type_name (JString s) = ''str''"
| "type_name (JInt i) = ''int''"
| "type_name (JFloat f) = ''float''"
| "type_name (JBool b) = ''bool''"
| "type_name JNull = ''NoneType''"

text \<open>\<open>data.items()\<close>: only a dictionary has the method.\<close>

fun items :: "json \<Rightarrow> exn + (string \<times> json) list" where
  "items (JObject kvs) = Inr kvs"
| "items j =
     Inl (Exn AttributeError
            ([CHR 0x27] @ type_name j @ [CHR 0x27] @ '' object has no attribute '' @
             [CHR 0x27] @ ''items'' @ [CHR 0x27]))"

text \<open>The loop \<open>for key, value in data.items(): st.markdown(...)\<close>.\<close>

fun show_fields :: "(string \<times> json) list \<Rightarrow> ('w, unit) prog" where
  "show_fields [] = ret ()"
| "show_fields ((k, v) # kvs) = andthen (emit (Field k v)) (\<lambda>_. show_fields kvs)"

text \<open>Lines 214 to 246: the inner \<open>try\<close> with its \<open>except json.JSONDecodeError\<close>.\<close>

definition show_results :: "'w services \<Rightarrow> string \<Rightarrow> string \<Rightarrow> ('w, unit) prog" where
  "show_results srv front_result back_result =
     try_except
       (andthen (lift (loads srv front_result)) (\<lambda>front_data.
        andthen (lift (loads srv back_result)) (\<lambda>back_data.
        andthen (emit (Columns 2)) (\<lambda>_.
        andthen (emit (Heading ''Front Side Details'')) (\<lambda>_.
        andthen (lift (items front_data)) (\<lambda>front_items.
        andthen (show_fields front_items) (\<lambda>_.
        andthen (emit (Heading ''Back Side Details'')) (\<lambda>_.
        andthen (lift (items back_data)) (\<lambda>back_items.
        show_fields back_items)))))))))
       (\<lambda>e. case e of
          Exn JSONDecodeError m \<Rightarrow> emit (StError ''Error processing the card information'')
        | _ \<Rightarrow> raise e)"

text \<open>Lines 197 to 212: OCR and question answering, front side then back side.\<close>

definition extract_sides :: "'w services \<Rightarrow> string \<Rightarrow> string \<Rightarrow> ('w, string \<times> string) prog" where
  "extract_sides srv front_s3_path back_s3_path =
     andthen (process_card_side srv front_s3_path) (\<lambda>front_text.
     andthen (process_and_query srv front_text front_query) (\<lambda>front_result.
     andthen (process_card_side srv back_s3_path) (\<lambda>back_text.
     andthen (process_and_query srv back_text back_query) (\<lambda>back_result.
     ret (front_result, back_result)))))"

text \<open>Lines 196 to 248: the outer \<open>try\<close> with its \<open>except Exception as e\<close>.\<close>

definition process_cards :: "'w services \<Rightarrow> string \<Rightarrow> string \<Rightarrow> ('w, unit) prog" where
  "process_cards srv front_s3_path back_s3_path =
     try_except
       (andthen (extract_sides srv front_s3_path back_s3_path)
          (\<lambda>r. show_results srv (fst r) (snd r)))
       (\<lambda>e. emit (StError (''Error during processing: '' @ str_exn e)))"

text \<open>
  An uploaded file is truthy and \<open>None\<close> is not; a locator is truthy when it is a
  non-empty string.
\<close>

definition main :: "'w services \<Rightarrow> (string \<rightharpoonup> string) \<Rightarrow> request \<Rightarrow> ('w, unit) prog" where
  "main srv secrets req =
     (if process_button req then
        (case (front_file req, back_file req) of
           (Some ff, Some bf) \<Rightarrow>
             andthen (emit (Spinner ''Processing your cards...'')) (\<lambda>_.
             andthen (upload_to_s3 srv secrets ff ''front.jpg'' ''cards'') (\<lambda>front_s3_path.
             andthen (upload_to_s3 srv secrets bf ''back.jpg'' ''cards'') (\<lambda>back_s3_path.
               (case (front_s3_path, back_s3_path) of
                  (Some fp, Some bp) \<Rightarrow>
                    if fp \<noteq> [] \<and> bp \<noteq> [] then process_cards srv fp bp
                    else emit (StError ''Error uploading files'')
                | _ \<Rightarrow> emit (StError ''Error uploading files'')))))
         | _ \<Rightarrow> emit (StWarning ''Please upload both front and back images''))
      else ret ())"

text \<open>
  The module, lines 31 to 47 and 254 to 255: \<open>secrets = get_secrets()\<close> runs before
  anything else; then the two assignments to \<open>os.environ\<close> and the two client
  constructors, each of which reads its arguments from \<open>secrets\<close> and may raise; \<open>main()\<close>
  is the last statement.
\<close>

definition new_client :: "'w services \<Rightarrow> (string \<rightharpoonup> string) \<Rightarrow> string \<Rightarrow> ('w, unit) prog" where
  "new_client srv secrets service =
     andthen (lift (subscript secrets ''AWS_ACCESS_KEY'')) (\<lambda>access_key.
     andthen (lift (subscript secrets ''AWS_SECRET_KEY'')) (\<lambda>secret_key.
     andthen (lift (subscript secrets ''AWS_REGION'')) (\<lambda>region.
     extcall (Boto3Client service access_key secret_key region)
       (boto3_client srv service access_key secret_key region))))"

definition script :: "'w services \<Rightarrow> st_secrets \<Rightarrow> request \<Rightarrow> ('w, unit) prog" where
  "script srv st req =
     andthen (lift (get_secrets st)) (\<lambda>secrets.
     andthen (lift (subscript secrets ''OPENAI_API_KEY'')) (\<lambda>openai_key.
     andthen (extcall (SetEnviron ''OPENAI_API_KEY'' openai_key)
                (set_environ srv ''OPENAI_API_KEY'' openai_key)) (\<lambda>_.
     andthen (lift (subscript secrets ''LLAMA_CLOUD_API_KEY'')) (\<lambda>llama_key.
     andthen (extcall (SetEnviron ''Llama_Cloud_API_Key'' llama_key)
                (set_environ srv ''Llama_Cloud_API_Key'' llama_key)) (\<lambda>_.
     andthen (new_client srv secrets ''s3'') (\<lambda>_.
     andthen (new_client srv secrets ''textract'') (\<lambda>_.
     main srv secrets req)))))))"

subsection \<open>The text splitter\<close>

text \<open>
  Modelled from the spec: the text splitter. \<open>process_and_query\<close> builds
  \<open>RecursiveCharacterTextSplitter(chunk_size=512, chunk_overlap=32, length_function=len)\<close>
  and calls its \<open>split_text\<close>; the code of the splitter belongs to a library and is not part
  of the sources. The definition follows section 4.1 of the specification: characters are
  packed into windows of at most \<open>chunk_size\<close>; when the text goes on, the window is closed
  and the next one starts \<open>chunk_overlap\<close> characters before the end of the closed one; a
  text that fits in one window is one chunk; the empty text gives no chunk.
\<close>

definition chunk_size :: nat where
  "chunk_size = 512"

definition chunk_overlap :: nat where
  "chunk_overlap = 32"

function chunker :: "string \<Rightarrow> string list" where
  "chunker t =
     (if t = [] then []
      else if length t \<le> chunk_size then [t]
      else take chunk_size t # chunker (drop (chunk_size - chunk_overlap) t))"
  by pat_completeness auto
termination
  by (relation "measure length") (auto simp: chunk_size_def chunk_overlap_def)

text \<open>
  Consecutive chunks overlap by \<open>n\<close>: the last \<open>n\<close> characters of a chunk are the first
  \<open>n\<close> characters of the next one.
\<close>

fun overlapping :: "nat \<Rightarrow> string list \<Rightarrow> bool" where
  "overlapping n [] = True"
| "overlapping n [c] = True"
| "overlapping n (c # d # cs) =
     (n \<le> length c \<and> n \<le> length d \<and> drop (length c - n) c = take n d \<and>
      overlapping n (d # cs))"

text \<open>The chunks put together again, the overlap of every chunk after the first removed.\<close>

fun reassemble :: "nat \<Rightarrow> string list \<Rightarrow> string" where
  "reassemble n [] = []"
| "reassemble n (c # cs) = c @ concat (map (drop n) cs)"

subsection \<open>Observations on the logs\<close>

text \<open>The calls and the events a run adds to the logs of the state it started from.\<close>

definition new_calls :: "'w state \<Rightarrow> 'w state \<Rightarrow> call list" where
  "new_calls s s' = drop (length (calls s)) (calls s')"

definition new_ui :: "'w state \<Rightarrow> 'w state \<Rightarrow> ui_event list" where
  "new_ui s s' = drop (length (ui s)) (ui s')"

text \<open>The storage keys of the uploads in a list of calls.\<close>

fun upload_key :: "call \<Rightarrow> string option" where
  "upload_key (UploadFileobj f b k) = Some k"
| "upload_key c = None"

definition upload_keys :: "call list \<Rightarrow> string list" where
  "upload_keys cs = List.map_filter upload_key cs"

text \<open>
  A call without the data that depends on the answers of the services: which step of
  the pipeline it is.
\<close>

datatype step =
    SUpload string
  | STextract string
  | SSplit nat nat
  | SEmbeddings
  | SFromTexts
  | SLoadChain
  | SSearch string
  | SRun string
  | SEnviron string
  | SClient string

fun step_of :: "call \<Rightarrow> step" where
  "step_of (UploadFileobj f b k) = SUpload k"
| "step_of (TextractLoad p) = STextract p"
| "step_of (SplitText cs co t) = SSplit cs co"
| "step_of NewEmbeddings = SEmbeddings"
| "step_of (FromTexts ts) = SFromTexts"
| "step_of LoadQaChain = SLoadChain"
| "step_of (SimilaritySearch q) = SSearch q"
| "step_of (ChainRun ds q) = SRun q"
| "step_of (SetEnviron k v) = SEnviron k"
| "step_of (Boto3Client sv ak sk rg) = SClient sv"

definition side_steps :: "string \<Rightarrow> string \<Rightarrow> step list" where
  "side_steps path query =
     [STextract path, SSplit 512 32, SEmbeddings, SFromTexts, SLoadChain,
      SSearch query, SRun query]"

definition pipeline_steps :: "string \<Rightarrow> step list" where
  "pipeline_steps bucket =
     [SUpload ''cards/front.jpg'', SUpload ''cards/back.jpg''] @
     side_steps (''s3://'' @ bucket @ ''/cards/front.jpg'') front_query @
     side_steps (''s3://'' @ bucket @ ''/cards/back.jpg'') back_query"

fun is_field :: "ui_event \<Rightarrow> bool" where
  "is_field (Field k v) = True"
| "is_field ev = False"

text \<open>\<open>adds s s' cs evs\<close>: from \<open>s\<close> to \<open>s'\<close> the logs grew by the calls \<open>cs\<close> and the events \<open>evs\<close>.\<close>

definition adds :: "'w state \<Rightarrow> 'w state \<Rightarrow> call list \<Rightarrow> ui_event list \<Rightarrow> bool" where
  "adds s s' cs evs \<longleftrightarrow> calls s' = calls s @ cs \<and> ui s' = ui s @ evs"

fun step_key :: "step \<Rightarrow> string option" where
  "step_key (SUpload k) = Some k"
| "step_key st = None"

subsection \<open>A concrete outside world\<close>

text \<open>
  The world is the number of external calls made so far. Every service answers with a
  fixed value, except that the call number \<open>n\<close> raises \<open>e\<close>. The chain answers \<open>fa\<close> to
  the front-side prompt and \<open>ba\<close> to the other one.
\<close>

definition demo_json :: "string \<Rightarrow> string + json" where
  "demo_json s =
     (if s = ''front'' then
        Inr (JObject [(''Full Name'', JString ''A B''), (''Card ID Number'', JString ''784'')])
      else if s = ''back'' then Inr (JObject [(''Occupation'', JString ''Engineer'')])
      else if s = ''[]'' then Inr (JArray [])
      else Inl ''Expecting value'')"

definition tick :: "nat \<Rightarrow> exn \<Rightarrow> 'a \<Rightarrow> (nat, 'a) ext" where
  "tick n e a = (\<lambda>w. (if w = n then Inl e else Inr a, Suc w))"

definition demo_srv :: "nat \<Rightarrow> exn \<Rightarrow> string \<Rightarrow> string \<Rightarrow> nat services" where
  "demo_srv n e fa ba =
     \<lparr> upload_fileobj = (\<lambda>f b k. tick n e ()),
       textract_load = (\<lambda>p. tick n e [Document (''text of '' @ p), Document ''page 2'']),
       split_text = (\<lambda>cs co t. tick n e [t]),
       openai_embeddings = tick n e (),
       faiss_from_texts = (\<lambda>ts. tick n e ()),
       load_qa_chain = tick n e (),
       similarity_search = (\<lambda>q. tick n e [Document ''chunk'']),
       chain_run = (\<lambda>ds q. tick n e (if q = front_query then fa else ba)),
       json_loads = demo_json,
       set_environ = (\<lambda>k v. tick n e ()),
       boto3_client = (\<lambda>sv ak sk rg. tick n e ()) \<rparr>"

text \<open>The same world with an OCR loader that finds no document.\<close>

definition blank_srv :: "nat services" where
  "blank_srv =
     (demo_srv 100 (Exn OtherException ''unused'') ''front'' ''back'')
       \<lparr> textract_load := (\<lambda>p w. (Inr [], Suc w)) \<rparr>"

definition demo_secrets :: "string \<rightharpoonup> string" where
  "demo_secrets =
     [''OPENAI_API_KEY'' \<mapsto> ''sk'', ''LLAMA_CLOUD_API_KEY'' \<mapsto> ''ll'',
      ''AWS_ACCESS_KEY'' \<mapsto> ''ak'', ''AWS_SECRET_KEY'' \<mapsto> ''as'',
      ''AWS_BUCKET_NAME'' \<mapsto> ''bkt'', ''AWS_REGION'' \<mapsto> ''me-1'']"

definition s0 :: "nat state" where
  "s0 = \<lparr> world = 0, calls = [], ui = [] \<rparr>"

definition both_files :: request where
  "both_files = \<lparr> process_button = True, front_file = Some ''F'', back_file = Some ''B'' \<rparr>"

definition no_front :: request where
  "no_front = \<lparr> process_button = True, front_file = None, back_file = Some ''B'' \<rparr>"

text \<open>The calls of a run of the concrete world in which nothing fails.\<close>

definition demo_calls :: "call list" where
  "demo_calls =
     [UploadFileobj ''F'' ''bkt'' ''cards/front.jpg'',
      UploadFileobj ''B'' ''bkt'' ''cards/back.jpg'',
      TextractLoad ''s3://bkt/cards/front.jpg'',
      SplitText 512 32 ''text of s3://bkt/cards/front.jpg'',
      NewEmbeddings, FromTexts [''text of s3://bkt/cards/front.jpg''], LoadQaChain,
      SimilaritySearch front_query, ChainRun [Document ''chunk''] front_query,
      TextractLoad ''s3://bkt/cards/back.jpg'',
      SplitText 512 32 ''text of s3://bkt/cards/back.jpg'',
      NewEmbeddings, FromTexts [''text of s3://bkt/cards/back.jpg''], LoadQaChain,
      SimilaritySearch back_query, ChainRun [Document ''chunk''] back_query]"

definition quiet :: exn where
  "quiet = Exn OtherException ''unused''"

text \<open>A text of 600 characters, longer than one window.\<close>

definition sample_text :: string where
  "sample_text = concat (replicate 60 ''0123456789'')"

section \<open>Properties\<close>

lemmas prog_defs = ret_def raise_def andthen_def try_except_def lift_def extcall_def emit_def

subsection \<open>Configuration\<close>

lemma missing_secrets_source:
  "missing_secrets (Secrets d) ks = Inr (filter (\<lambda>k. d k = None) ks)"
  by (induction ks) simp_all

lemma dict_comp_present:
  "\<forall>k\<in>set ks. d k \<noteq> None \<Longrightarrow> dict_comp (Secrets d) ks = Inr (d |` set ks)"
proof (induction ks)
  case Nil
  then show ?case by simp
next
  case (Cons k ks)
  then obtain v where v: "d k = Some v" by auto
  have "(d |` set ks)(k \<mapsto> v) = d |` set (k # ks)"
    using v by (auto simp: restrict_map_def fun_eq_iff)
  with Cons v show ?case by (simp add: subscript_def)
qed

lemma get_secrets_present:
  assumes "\<forall>k\<in>set required_secrets. d k \<noteq> None"
  shows "get_secrets (Secrets d) = Inr (d |` set required_secrets)"
proof -
  from assms have "filter (\<lambda>k. d k = None) required_secrets = []"
    by (auto simp: filter_empty_conv)
  with dict_comp_present [OF assms] show ?thesis
    by (simp add: get_secrets_def missing_secrets_source)
qed

lemma get_secrets_no_source:
  "get_secrets (NoSecrets m) = Inl (Exn SecretNotFoundError m)"
  by (simp add: get_secrets_def required_secrets_def)

text \<open>
  C4, as the claim states it, fails when no secrets source exists: all six settings are
  absent, but the error comes from the membership test of line 24 and is Streamlit's
  not-found error, not the \<open>ValueError\<close> that names the six settings.
\<close>

theorem get_secrets_no_source_counterexample:
  "get_secrets (NoSecrets ''No secrets found'') =
     Inl (Exn SecretNotFoundError ''No secrets found'') \<and>
   get_secrets (NoSecrets ''No secrets found'') \<noteq>
     Inl (Exn ValueError (''Missing required secrets: '' @ join_str '', '' required_secrets))"
  by (simp add: get_secrets_no_source)

text \<open>
  C4, amended. If a secrets source exists and one of the six required settings is absent
  from it, \<open>get_secrets\<close> raises a \<open>ValueError\<close> whose message names exactly the absent
  settings, in the order of the list. If no secrets source exists, \<open>get_secrets\<close> raises
  Streamlit's not-found error. In both cases the script stops there: nothing is called
  and nothing is shown. If all six are present, \<open>get_secrets\<close> returns the mapping of
  exactly these six settings to their values.
\<close>

theorem get_secrets_startup:
  "((\<exists>k\<in>set required_secrets. d k = None) \<longrightarrow>
      get_secrets (Secrets d) =
        Inl (Exn ValueError (''Missing required secrets: '' @
               join_str '', '' (filter (\<lambda>k. d k = None) required_secrets))) \<and>
      script srv (Secrets d) req s =
        (Inl (Exn ValueError (''Missing required secrets: '' @
               join_str '', '' (filter (\<lambda>k. d k = None) required_secrets))), s)) \<and>
   ((\<forall>k\<in>set required_secrets. d k \<noteq> None) \<longrightarrow>
      get_secrets (Secrets d) = Inr (d |` set required_secrets)) \<and>
   get_secrets (NoSecrets m) = Inl (Exn SecretNotFoundError m) \<and>
   script srv (NoSecrets m) req s = (Inl (Exn SecretNotFoundError m), s)"
proof (intro conjI impI)
  assume a: "\<exists>k\<in>set required_secrets. d k = None"
  then have m: "filter (\<lambda>k. d k = None) required_secrets \<noteq> []"
    by (auto simp: filter_empty_conv)
  then show g: "get_secrets (Secrets d) =
        Inl (Exn ValueError (''Missing required secrets: '' @
               join_str '', '' (filter (\<lambda>k. d k = None) required_secrets)))"
    by (simp add: get_secrets_def missing_secrets_source)
  show "script srv (Secrets d) req s =
        (Inl (Exn ValueError (''Missing required secrets: '' @
               join_str '', '' (filter (\<lambda>k. d k = None) required_secrets))), s)"
    by (simp add: script_def andthen_def lift_def g)
next
  assume "\<forall>k\<in>set required_secrets. d k \<noteq> None"
  then show "get_secrets (Secrets d) = Inr (d |` set required_secrets)"
    by (rule get_secrets_present)
next
  show "get_secrets (NoSecrets m) = Inl (Exn SecretNotFoundError m)"
    by (rule get_secrets_no_source)
  show "script srv (NoSecrets m) req s = (Inl (Exn SecretNotFoundError m), s)"
    by (simp add: script_def andthen_def lift_def get_secrets_no_source)
qed

theorem get_secrets_startup_witness:
  "get_secrets (Secrets (demo_secrets(''AWS_SECRET_KEY'' := None, ''AWS_REGION'' := None))) =
     Inl (Exn ValueError ''Missing required secrets: AWS_SECRET_KEY, AWS_REGION'') \<and>
   script (demo_srv 100 (Exn OtherException ''unused'') ''front'' ''back'')
     (Secrets (demo_secrets(''AWS_SECRET_KEY'' := None, ''AWS_REGION'' := None)))
     both_files s0 =
     (Inl (Exn ValueError ''Missing required secrets: AWS_SECRET_KEY, AWS_REGION''), s0) \<and>
   get_secrets (Secrets demo_secrets) = Inr (demo_secrets |` set required_secrets) \<and>
   script (demo_srv 100 (Exn OtherException ''unused'') ''front'' ''back'')
     (NoSecrets ''No secrets found'') both_files s0 =
     (Inl (Exn SecretNotFoundError ''No secrets found''), s0)"
proof -
  let ?d = "demo_secrets(''AWS_SECRET_KEY'' := None, ''AWS_REGION'' := None)"
  have absent: "\<exists>k\<in>set required_secrets. ?d k = None"
    by (simp add: required_secrets_def)
  have present: "\<forall>k\<in>set required_secrets. demo_secrets k \<noteq> None"
    by (simp add: required_secrets_def demo_secrets_def)
  have names: "filter (\<lambda>k. ?d k = None) required_secrets = [''AWS_SECRET_KEY'', ''AWS_REGION'']"
    by (simp add: required_secrets_def demo_secrets_def)
  note t = get_secrets_startup
             [of ?d "demo_srv 100 (Exn OtherException ''unused'') ''front'' ''back''" both_files s0
                 "''No secrets found''"]
  note a = t [THEN conjunct1, THEN mp, OF absent, unfolded names]
  note b = get_secrets_startup
             [of demo_secrets, THEN conjunct2, THEN conjunct1, THEN mp, OF present]
  note c = t [THEN conjunct2, THEN conjunct2, THEN conjunct2]
  from a b c show ?thesis by simp
qed

text \<open>
  When \<open>get_secrets\<close> returns, each of the four module-level calls can still end the
  script before \<open>main\<close>: here the constructor of the storage client raises.
\<close>

lemma script_client_failure:
  "script (demo_srv 2 (Exn ValueError ''Invalid endpoint'') ''front'' ''back'')
     (Secrets demo_secrets) both_files s0 =
     (Inl (Exn ValueError ''Invalid endpoint''),
      \<lparr>world = 3,
       calls = [SetEnviron ''OPENAI_API_KEY'' ''sk'', SetEnviron ''Llama_Cloud_API_Key'' ''ll'',
                Boto3Client ''s3'' ''ak'' ''as'' ''me-1''],
       ui = []\<rparr>)"
proof -
  have "\<forall>k\<in>set required_secrets. demo_secrets k \<noteq> None"
    by (simp add: required_secrets_def demo_secrets_def)
  then have "get_secrets (Secrets demo_secrets) = Inr (demo_secrets |` set required_secrets)"
    by (rule get_secrets_present)
  then show ?thesis
    by (simp add: script_def new_client_def prog_defs)
       (simp add: subscript_def required_secrets_def demo_secrets_def demo_srv_def tick_def
          s0_def)
qed

subsection \<open>The OCR step\<close>

text \<open>
  C10. \<open>process_card_side\<close> returns the page content of the first document of the loader
  and ignores the other documents; when the loader returns no document it raises
  \<open>IndexError\<close> instead of returning an empty text.
\<close>

theorem process_card_side_first_document:
  "(textract_load srv p (world s) = (Inr (d # ds), w') \<longrightarrow>
      process_card_side srv p s =
        (Inr (page_content d), s\<lparr>world := w', calls := calls s @ [TextractLoad p]\<rparr>)) \<and>
   (textract_load srv p (world s) = (Inr [], w') \<longrightarrow>
      process_card_side srv p s =
        (Inl (Exn IndexError ''list index out of range''),
         s\<lparr>world := w', calls := calls s @ [TextractLoad p]\<rparr>))"
  by (simp add: process_card_side_def prog_defs)

theorem process_card_side_first_document_witness:
  "process_card_side (demo_srv 100 (Exn OtherException ''unused'') ''front'' ''back'') ''p'' s0 =
     (Inr ''text of p'', \<lparr>world = 1, calls = [TextractLoad ''p''], ui = []\<rparr>) \<and>
   process_card_side blank_srv ''p'' s0 =
     (Inl (Exn IndexError ''list index out of range''),
      \<lparr>world = 1, calls = [TextractLoad ''p''], ui = []\<rparr>)"
  using process_card_side_first_document
          [of "demo_srv 100 (Exn OtherException ''unused'') ''front'' ''back''" "''p''" s0
              "Document ''text of p''" "[Document ''page 2'']" 1]
        process_card_side_first_document [of blank_srv "''p''" s0 _ _ 1]
  by (simp add: demo_srv_def blank_srv_def tick_def s0_def)

subsection \<open>Validation of the submission\<close>

text \<open>
  C5. When the button is pressed and the front or the back image is missing, the only
  effect of \<open>main\<close> is the warning: the state of the outside world and the log of
  external calls are unchanged, so there is no upload, no OCR, no splitting, no retrieval
  and no model call.
\<close>

theorem missing_image_warning:
  "process_button req \<Longrightarrow> front_file req = None \<or> back_file req = None \<Longrightarrow>
     main srv secrets req s =
       (Inr (), s\<lparr>ui := ui s @ [StWarning ''Please upload both front and back images'']\<rparr>)"
  by (auto simp: main_def prog_defs split: option.splits)

theorem missing_image_warning_witness:
  "main (demo_srv 100 (Exn OtherException ''unused'') ''front'' ''back'') demo_secrets no_front s0 =
     (Inr (), \<lparr>world = 0, calls = [],
               ui = [StWarning ''Please upload both front and back images'']\<rparr>)"
  using missing_image_warning
          [of no_front "demo_srv 100 (Exn OtherException ''unused'') ''front'' ''back''"
              demo_secrets s0]
  by (simp add: no_front_def s0_def)

subsection \<open>Effects of the steps on the logs\<close>

lemma adds_trans: "adds s s' cs evs \<Longrightarrow> adds s' s'' cs' evs' \<Longrightarrow> adds s s'' (cs @ cs') (evs @ evs')"
  by (simp add: adds_def)

lemma adds_new: "adds s s' cs evs \<Longrightarrow> new_calls s s' = cs \<and> new_ui s s' = evs"
  by (simp add: adds_def new_calls_def new_ui_def)

lemma andthen_cases:
  assumes "andthen m k s = (r, s')"
  obtains (fail) e where "m s = (Inl e, s')" "r = Inl e"
        | (ok) a s1 where "m s = (Inr a, s1)" "k a s1 = (r, s')"
  using assms by (auto simp: andthen_def split: prod.splits sum.splits)

lemma upload_to_s3_run:
  assumes "secrets ''AWS_BUCKET_NAME'' = Some b"
  shows "upload_to_s3 srv secrets f fn folder s =
     (case upload_fileobj srv f b (folder @ ''/'' @ fn) (world s) of
        (Inr u, w') \<Rightarrow>
          (Inr (Some (''s3://'' @ b @ ''/'' @ folder @ ''/'' @ fn)),
           s\<lparr>world := w', calls := calls s @ [UploadFileobj f b (folder @ ''/'' @ fn)]\<rparr>)
      | (Inl (Exn c m), w') \<Rightarrow>
          (if c = NoCredentialsError then Inr None else Inl (Exn c m),
           s\<lparr>world := w', calls := calls s @ [UploadFileobj f b (folder @ ''/'' @ fn)]\<rparr>))"
  using assms
  by (simp add: upload_to_s3_def prog_defs subscript_def Let_def
           split: prod.splits sum.splits exn.splits exn_class.splits)

lemma upload_to_s3_no_bucket:
  assumes "secrets ''AWS_BUCKET_NAME'' = None"
  shows "upload_to_s3 srv secrets f fn folder s = (Inl (Exn KeyError ''AWS_BUCKET_NAME''), s)"
  using assms
  by (simp add: upload_to_s3_def prog_defs subscript_def Let_def)

lemma upload_to_s3_adds:
  assumes "secrets ''AWS_BUCKET_NAME'' = Some b"
    and "upload_to_s3 srv secrets f fn ''cards'' s = (x, s')"
  shows "adds s s' [UploadFileobj f b (''cards/'' @ fn)] [] \<and>
         (x = Inr None \<or> x = Inr (Some (''s3://'' @ b @ ''/cards/'' @ fn)) \<or> (\<exists>e. x = Inl e))"
  using assms(2)
  by (auto simp: upload_to_s3_run [where secrets = secrets and b = b, OF assms(1)] adds_def
           split: prod.splits sum.splits exn.splits if_splits)

lemma upload_to_s3_Some:
  assumes "upload_to_s3 srv secrets f fn folder s = (Inr (Some p), s')"
  shows "p \<noteq> [] \<and> ui s' = ui s"
proof (cases "secrets ''AWS_BUCKET_NAME''")
  case None
  from assms show ?thesis by (simp add: upload_to_s3_no_bucket [where secrets = secrets, OF None])
next
  case (Some b)
  from assms show ?thesis
    by (auto simp: upload_to_s3_run [where secrets = secrets and b = b, OF Some]
             split: prod.splits sum.splits exn.splits if_splits)
qed

lemma process_card_side_adds:
  "process_card_side srv p s = (r, s') \<Longrightarrow> adds s s' [TextractLoad p] []"
  by (auto simp: process_card_side_def prog_defs adds_def split: prod.splits sum.splits list.splits)

lemma process_and_query_adds:
  "process_and_query srv t q s = (r, s') \<Longrightarrow>
     \<exists>cs. adds s s' cs [] \<and> prefix (STextract p # map step_of cs) (side_steps p q) \<and>
          (\<forall>a. r = Inr a \<longrightarrow> STextract p # map step_of cs = side_steps p q)"
  by (auto simp: process_and_query_def prog_defs adds_def side_steps_def
           split: prod.splits sum.splits)

lemma extract_sides_adds:
  assumes "extract_sides srv p1 p2 s = (r, s')"
  shows "\<exists>cs. adds s s' cs [] \<and>
           prefix (map step_of cs) (side_steps p1 front_query @ side_steps p2 back_query) \<and>
           (\<forall>a. r = Inr a \<longrightarrow>
              map step_of cs = side_steps p1 front_query @ side_steps p2 back_query)"
  using assms unfolding extract_sides_def
proof (cases rule: andthen_cases)
  case (fail e)
  from process_card_side_adds [OF fail(1)] fail(2) show ?thesis
    by (intro exI [of _ "[TextractLoad p1]"]) (simp add: side_steps_def)
next
  case ok1: (ok t1 s1)
  note a1 = process_card_side_adds [OF ok1(1)]
  from ok1(2) show ?thesis
  proof (cases rule: andthen_cases)
    case (fail e)
    from process_and_query_adds [OF fail(1), of p1] obtain cs where
      cs: "adds s1 s' cs []" "prefix (STextract p1 # map step_of cs) (side_steps p1 front_query)"
      by blast
    from adds_trans [OF a1 cs(1)] cs(2) fail(2) show ?thesis
      by (intro exI [of _ "[TextractLoad p1] @ cs"]) (auto intro: prefix_prefix)
  next
    case ok2: (ok r1 s2)
    from process_and_query_adds [OF ok2(1), of p1] obtain cs where
      cs: "adds s1 s2 cs []" "STextract p1 # map step_of cs = side_steps p1 front_query"
      by blast
    note a2 = adds_trans [OF a1 cs(1)]
    from ok2(2) show ?thesis
    proof (cases rule: andthen_cases)
      case (fail e)
      from adds_trans [OF a2 process_card_side_adds [OF fail(1)]] cs(2) fail(2) show ?thesis
        by (intro exI [of _ "([TextractLoad p1] @ cs) @ [TextractLoad p2]"])
           (simp add: side_steps_def)
    next
      case ok3: (ok t2 s3)
      note a3 = adds_trans [OF a2 process_card_side_adds [OF ok3(1)]]
      from ok3(2) show ?thesis
      proof (cases rule: andthen_cases)
        case (fail e)
        from process_and_query_adds [OF fail(1), of p2] obtain cs' where
          cs': "adds s3 s' cs' []"
               "prefix (STextract p2 # map step_of cs') (side_steps p2 back_query)"
          by blast
        from adds_trans [OF a3 cs'(1)] cs'(2) fail(2) show ?thesis
          by (intro exI [of _ "(([TextractLoad p1] @ cs) @ [TextractLoad p2]) @ cs'"])
             (simp add: cs(2) [symmetric])
      next
        case ok4: (ok r2 s4)
        from process_and_query_adds [OF ok4(1), of p2] obtain cs' where
          cs': "adds s3 s4 cs' []"
               "STextract p2 # map step_of cs' = side_steps p2 back_query"
          by blast
        from ok4(2) have "s' = s4" by (simp add: ret_def)
        with adds_trans [OF a3 cs'(1)] show ?thesis
          by (intro exI [of _ "(([TextractLoad p1] @ cs) @ [TextractLoad p2]) @ cs'"])
             (simp add: cs(2) [symmetric] cs'(2) [symmetric])
      qed
    qed
  qed
qed

lemma show_fields_run:
  "show_fields kvs s = (Inr (), s\<lparr>ui := ui s @ map (\<lambda>(k, v). Field k v) kvs\<rparr>)"
  by (induction kvs arbitrary: s) (auto simp: prog_defs)

lemma show_results_malformed:
  assumes "isl (json_loads srv fr) \<or> isl (json_loads srv br)"
  shows "show_results srv fr br s =
           (Inr (), s\<lparr>ui := ui s @ [StError ''Error processing the card information'']\<rparr>)"
  using assms
  by (auto simp: show_results_def prog_defs loads_def isl_def split: sum.splits)

lemma show_results_parsed:
  assumes "json_loads srv fr = Inr j1" "json_loads srv br = Inr j2"
    and "show_results srv fr br s = (r, s')"
  shows "\<exists>evs. adds s s' [] (Columns 2 # evs) \<and> world s' = world s \<and>
               (r = Inr () \<or> (\<exists>m. r = Inl (Exn AttributeError m)))"
  using assms
  by (cases j1; cases j2)
     (auto simp: show_results_def prog_defs loads_def adds_def show_fields_run)

lemma process_cards_malformed:
  assumes "extract_sides srv p1 p2 s = (Inr (fr, br), s1)"
    and "isl (json_loads srv fr) \<or> isl (json_loads srv br)"
  shows "process_cards srv p1 p2 s =
           (Inr (), s1\<lparr>ui := ui s1 @ [StError ''Error processing the card information'']\<rparr>)"
  using assms
  by (simp add: process_cards_def try_except_def andthen_def show_results_malformed)

lemma process_cards_failure:
  assumes "extract_sides srv p1 p2 s = (Inl e, s1)"
  shows "process_cards srv p1 p2 s =
           (Inr (), s1\<lparr>ui := ui s1 @ [StError (''Error during processing: '' @ str_exn e)]\<rparr>)"
  using assms
  by (simp add: process_cards_def try_except_def andthen_def emit_def)

lemma process_cards_run:
  assumes "process_cards srv p1 p2 s = (r, s')"
  shows "r = Inr () \<and>
         (\<exists>cs evs. adds s s' cs evs \<and> evs \<noteq> [] \<and>
            prefix (map step_of cs) (side_steps p1 front_query @ side_steps p2 back_query) \<and>
            (Columns 2 \<in> set evs \<or>
             StError ''Error processing the card information'' \<in> set evs \<longrightarrow>
               map step_of cs = side_steps p1 front_query @ side_steps p2 back_query))"
proof (cases "extract_sides srv p1 p2 s")
  case (Pair x s1)
  from extract_sides_adds [OF Pair] obtain cs where
    cs: "adds s s1 cs []"
        "prefix (map step_of cs) (side_steps p1 front_query @ side_steps p2 back_query)"
        "\<forall>a. x = Inr a \<longrightarrow>
           map step_of cs = side_steps p1 front_query @ side_steps p2 back_query"
    by blast
  show ?thesis
  proof (cases x)
    case (Inl e)
    with Pair assms process_cards_failure [of srv p1 p2 s e s1]
    have r: "r = Inr ()"
      and s': "s' = s1\<lparr>ui := ui s1 @ [StError (''Error during processing: '' @ str_exn e)]\<rparr>"
      by auto
    from cs(1) s' have "adds s s' cs [StError (''Error during processing: '' @ str_exn e)]"
      by (simp add: adds_def)
    with r cs(2) show ?thesis
      by (intro conjI exI [of _ cs]
            exI [of _ "[StError (''Error during processing: '' @ str_exn e)]"]) auto
  next
    case (Inr a)
    obtain fr br where a: "a = (fr, br)" by (cases a)
    from cs(3) Inr have full:
      "map step_of cs = side_steps p1 front_query @ side_steps p2 back_query" by simp
    show ?thesis
    proof (cases "isl (json_loads srv fr) \<or> isl (json_loads srv br)")
      case True
      with Pair Inr a assms process_cards_malformed [of srv p1 p2 s fr br s1]
      have r: "r = Inr ()"
        and s': "s' = s1\<lparr>ui := ui s1 @ [StError ''Error processing the card information'']\<rparr>"
        by auto
      from cs(1) s' have "adds s s' cs [StError ''Error processing the card information'']"
        by (simp add: adds_def)
      with r full show ?thesis
        by (intro conjI exI [of _ cs]
              exI [of _ "[StError ''Error processing the card information'']"]) auto
    next
      case False
      then obtain j1 j2 where j: "json_loads srv fr = Inr j1" "json_loads srv br = Inr j2"
        by (cases "json_loads srv fr"; cases "json_loads srv br") auto
      obtain r2 s2 where sr: "show_results srv fr br s1 = (r2, s2)"
        by (cases "show_results srv fr br s1")
      from show_results_parsed [OF j sr] obtain evs where
        evs: "adds s1 s2 [] (Columns 2 # evs)"
             "r2 = Inr () \<or> (\<exists>m. r2 = Inl (Exn AttributeError m))"
        by blast
      from evs(2) show ?thesis
      proof
        assume "r2 = Inr ()"
        with Pair Inr a sr assms have "r = Inr ()" "s' = s2"
          by (auto simp: process_cards_def try_except_def andthen_def)
        with adds_trans [OF cs(1) evs(1)] full show ?thesis
          by (intro conjI exI [of _ cs] exI [of _ "Columns 2 # evs"]) auto
      next
        assume "\<exists>m. r2 = Inl (Exn AttributeError m)"
        then obtain m where "r2 = Inl (Exn AttributeError m)" ..
        with Pair Inr a sr assms have r: "r = Inr ()"
          and s': "s' = s2\<lparr>ui := ui s2 @ [StError (''Error during processing: '' @ m)]\<rparr>"
          by (auto simp: process_cards_def try_except_def andthen_def emit_def)
        from adds_trans [OF cs(1) evs(1)] s'
        have "adds s s' cs (Columns 2 # evs @ [StError (''Error during processing: '' @ m)])"
          by (simp add: adds_def)
        with r full show ?thesis
          by (intro conjI exI [of _ cs]
                exI [of _ "Columns 2 # evs @ [StError (''Error during processing: '' @ m)]"])
             auto
      qed
    qed
  qed
qed

lemma main_run:
  assumes b: "secrets ''AWS_BUCKET_NAME'' = Some b"
    and m: "main srv secrets req s = (r, s')"
  shows "\<exists>cs evs. adds s s' cs evs \<and>
           prefix (map step_of cs) (pipeline_steps b) \<and>
           (Columns 2 \<in> set evs \<or>
            StError ''Error processing the card information'' \<in> set evs \<longrightarrow>
              map step_of cs = pipeline_steps b) \<and>
           (r = Inr () \<and> process_button req \<and> front_file req \<noteq> None \<and>
            back_file req \<noteq> None \<longrightarrow>
              prefix [SUpload ''cards/front.jpg'', SUpload ''cards/back.jpg''] (map step_of cs))"
proof (cases "process_button req \<and> front_file req \<noteq> None \<and> back_file req \<noteq> None")
  case False
  with m have "adds s s' [] [] \<or>
               adds s s' [] [StWarning ''Please upload both front and back images'']"
    by (auto simp: main_def prog_defs adds_def split: option.splits if_splits)
  with False show ?thesis
    by (elim disjE)
       (rule exI [of _ "[]"], rule exI [of _ "[]"], simp,
        rule exI [of _ "[]"],
        rule exI [of _ "[StWarning ''Please upload both front and back images'']"], simp)
next
  case True
  then obtain ff bf where f: "process_button req" "front_file req = Some ff"
    "back_file req = Some bf" by auto
  let ?u1 = "UploadFileobj ff b ''cards/front.jpg''"
  let ?u2 = "UploadFileobj bf b ''cards/back.jpg''"
  let ?sp = "Spinner ''Processing your cards...''"
  let ?s1 = "s\<lparr>ui := ui s @ [?sp]\<rparr>"
  have a0: "adds s ?s1 [] [?sp]" by (simp add: adds_def)
  obtain x1 s2 where u1: "upload_to_s3 srv secrets ff ''front.jpg'' ''cards'' ?s1 = (x1, s2)"
    by (cases "upload_to_s3 srv secrets ff ''front.jpg'' ''cards'' ?s1")
  from upload_to_s3_adds [OF b u1] have a1: "adds ?s1 s2 [?u1] []"
    and x1: "x1 = Inr None \<or> x1 = Inr (Some (''s3://'' @ b @ ''/cards/front.jpg'')) \<or>
             (\<exists>e. x1 = Inl e)"
    by simp_all
  note a01 = adds_trans [OF a0 a1]
  show ?thesis
  proof (cases x1)
    case (Inl e)
    with m f u1 have "s' = s2"
      by (simp add: main_def andthen_def emit_def)
    with a01 Inl m f u1 show ?thesis
      by (intro exI [of _ "[?u1]"] exI [of _ "[?sp]"])
         (auto simp: pipeline_steps_def main_def andthen_def emit_def)
  next
    case (Inr p1)
    obtain x2 s3 where u2: "upload_to_s3 srv secrets bf ''back.jpg'' ''cards'' s2 = (x2, s3)"
      by (cases "upload_to_s3 srv secrets bf ''back.jpg'' ''cards'' s2")
    from upload_to_s3_adds [OF b u2] have a2: "adds s2 s3 [?u2] []"
      and x2: "x2 = Inr None \<or> x2 = Inr (Some (''s3://'' @ b @ ''/cards/back.jpg'')) \<or>
               (\<exists>e. x2 = Inl e)"
      by simp_all
    have a02: "adds s s3 [?u1, ?u2] [?sp]"
      using adds_trans [OF a01 a2] by simp
    show ?thesis
    proof (cases x2)
      case Inl2: (Inl e)
      with m f u1 u2 Inr have "s' = s3" "r = Inl e"
        by (simp_all add: main_def andthen_def emit_def)
      with a02 show ?thesis
        by (intro exI [of _ "[?u1, ?u2]"] exI [of _ "[?sp]"])
           (auto simp: pipeline_steps_def)
    next
      case Inr2: (Inr p2)
      show ?thesis
      proof (cases "p1 = None \<or> p2 = None")
        case True
        with m f u1 u2 Inr Inr2
        have "s' = s3\<lparr>ui := ui s3 @ [StError ''Error uploading files'']\<rparr>"
          by (auto simp: main_def andthen_def emit_def split: option.splits)
        with a02 have "adds s s' [?u1, ?u2] [?sp, StError ''Error uploading files'']"
          by (simp add: adds_def)
        then show ?thesis
          by (intro exI [of _ "[?u1, ?u2]"]
                exI [of _ "[?sp, StError ''Error uploading files'']"])
             (auto simp: pipeline_steps_def)
      next
        case False
        with x1 x2 Inr Inr2 have p: "p1 = Some (''s3://'' @ b @ ''/cards/front.jpg'')"
          "p2 = Some (''s3://'' @ b @ ''/cards/back.jpg'')" by auto
        with m f u1 u2 Inr Inr2
        have pc: "process_cards srv (''s3://'' @ b @ ''/cards/front.jpg'')
                    (''s3://'' @ b @ ''/cards/back.jpg'') s3 = (r, s')"
          by (simp add: main_def andthen_def emit_def)
        from process_cards_run [OF pc] obtain cs evs where
          c: "adds s3 s' cs evs"
             "prefix (map step_of cs)
                (side_steps (''s3://'' @ b @ ''/cards/front.jpg'') front_query @
                 side_steps (''s3://'' @ b @ ''/cards/back.jpg'') back_query)"
             "Columns 2 \<in> set evs \<or>
              StError ''Error processing the card information'' \<in> set evs \<longrightarrow>
                map step_of cs =
                  side_steps (''s3://'' @ b @ ''/cards/front.jpg'') front_query @
                  side_steps (''s3://'' @ b @ ''/cards/back.jpg'') back_query"
          by blast
        from adds_trans [OF a02 c(1)] c(2) c(3) show ?thesis
          by (intro exI [of _ "[?u1, ?u2] @ cs"] exI [of _ "[?sp] @ evs"])
             (auto simp: pipeline_steps_def)
      qed
    qed
  qed
qed

lemma upload_keys_steps: "upload_keys cs = List.map_filter step_key (map step_of cs)"
proof (induction cs)
  case Nil
  then show ?case by (simp add: upload_keys_def List.map_filter_simps)
next
  case (Cons c cs)
  then show ?case by (cases c) (simp_all add: upload_keys_def List.map_filter_simps)
qed

lemma prefix_map_filter: "prefix xs ys \<Longrightarrow> prefix (List.map_filter f xs) (List.map_filter f ys)"
  by (auto simp: prefix_def List.map_filter_def)

lemma pipeline_upload_keys:
  "List.map_filter step_key (pipeline_steps b) = [''cards/front.jpg'', ''cards/back.jpg'']"
  by (simp add: pipeline_steps_def side_steps_def List.map_filter_simps)

subsection \<open>Runs of the concrete world\<close>

lemmas demo_defs = demo_srv_def tick_def demo_json_def demo_secrets_def s0_def both_files_def
  no_front_def blank_srv_def

lemmas run_defs = main_def process_cards_def extract_sides_def show_results_def
  process_card_side_def process_and_query_def upload_to_s3_def loads_def subscript_def
  Let_def prog_defs

lemma queries_differ: "back_query \<noteq> front_query"
  by (simp add: front_query_def back_query_def)

lemma s0_simps: "world s0 = 0" "calls s0 = []" "ui s0 = []"
  by (simp_all add: s0_def)

lemma demo_run:
  "main (demo_srv 100 quiet ''front'' ''back'') demo_secrets both_files s0 =
     (Inr (),
      \<lparr>world = 16, calls = demo_calls,
       ui = [Spinner ''Processing your cards...'', Columns 2, Heading ''Front Side Details'',
             Field ''Full Name'' (JString ''A B''), Field ''Card ID Number'' (JString ''784''),
             Heading ''Back Side Details'', Field ''Occupation'' (JString ''Engineer'')]\<rparr>)"
  by (simp add: run_defs demo_defs queries_differ demo_calls_def)

subsection \<open>Order of the external calls\<close>

text \<open>
  C8. In every run of \<open>main\<close> the external calls are a prefix of the fixed sequence
  \<open>pipeline_steps\<close>: upload front, upload back, then for the front side OCR, splitting,
  embeddings, index, chain, retrieval, answer, and only then the same seven steps for the
  back side. Each position of the sequence is one call, so no call is repeated, and a
  step is never made before the ones in front of it. A run that gets as far as parsing
  the two answers (it shows the two columns or the JSON error) has made every call of the
  sequence exactly once.
\<close>

theorem pipeline_order:
  assumes "secrets ''AWS_BUCKET_NAME'' = Some b"
    and "main srv secrets req s = (r, s')"
  shows "calls s' = calls s @ new_calls s s' \<and>
         prefix (map step_of (new_calls s s')) (pipeline_steps b) \<and>
         (Columns 2 \<in> set (new_ui s s') \<or>
          StError ''Error processing the card information'' \<in> set (new_ui s s') \<longrightarrow>
            map step_of (new_calls s s') = pipeline_steps b)"
proof -
  from main_run [OF assms] obtain cs evs where
    c: "adds s s' cs evs" "prefix (map step_of cs) (pipeline_steps b)"
       "Columns 2 \<in> set evs \<or> StError ''Error processing the card information'' \<in> set evs \<longrightarrow>
          map step_of cs = pipeline_steps b"
    by blast
  from adds_new [OF c(1)] c show ?thesis by (simp add: adds_def)
qed

theorem pipeline_order_witness:
  "demo_secrets ''AWS_BUCKET_NAME'' = Some ''bkt'' \<and>
   map step_of
     (new_calls s0
        (snd (main (demo_srv 100 quiet ''front'' ''back'') demo_secrets both_files s0))) =
     pipeline_steps ''bkt''"
proof -
  have b: "demo_secrets ''AWS_BUCKET_NAME'' = Some ''bkt''"
    by (simp add: demo_secrets_def)
  from pipeline_order [OF b demo_run] b show ?thesis
    by (simp add: demo_run new_ui_def new_calls_def s0_simps)
qed

subsection \<open>Storage locations\<close>

text \<open>
  C9. A successful upload of file name \<open>fn\<close> returns the locator
  \<open>s3://bucket/cards/fn\<close>. Whatever the request, the keys \<open>main\<close> uploads to are a prefix
  of \<open>cards/front.jpg, cards/back.jpg\<close>, and exactly these two when \<open>main\<close> returns from a
  submission with both images: every request writes to the same two keys, so the objects
  of the request before are replaced.
\<close>

theorem upload_locator_and_keys:
  assumes "secrets ''AWS_BUCKET_NAME'' = Some b"
  shows "(upload_fileobj srv f b (''cards/'' @ fn) (world s) = (Inr (), w) \<longrightarrow>
            upload_to_s3 srv secrets f fn ''cards'' s =
              (Inr (Some (''s3://'' @ b @ ''/cards/'' @ fn)),
               s\<lparr>world := w, calls := calls s @ [UploadFileobj f b (''cards/'' @ fn)]\<rparr>)) \<and>
         (main srv secrets req s = (r, s') \<longrightarrow>
            prefix (upload_keys (new_calls s s')) [''cards/front.jpg'', ''cards/back.jpg''] \<and>
            (r = Inr () \<and> process_button req \<and> front_file req \<noteq> None \<and>
             back_file req \<noteq> None \<longrightarrow>
               upload_keys (new_calls s s') = [''cards/front.jpg'', ''cards/back.jpg'']))"
proof (intro conjI impI)
  assume "upload_fileobj srv f b (''cards/'' @ fn) (world s) = (Inr (), w)"
  then show "upload_to_s3 srv secrets f fn ''cards'' s =
              (Inr (Some (''s3://'' @ b @ ''/cards/'' @ fn)),
               s\<lparr>world := w, calls := calls s @ [UploadFileobj f b (''cards/'' @ fn)]\<rparr>)"
    by (simp add: upload_to_s3_run [where secrets = secrets and b = b, OF assms])
next
  assume m: "main srv secrets req s = (r, s')"
  from main_run [OF assms m] obtain cs evs where
    c: "adds s s' cs evs" "prefix (map step_of cs) (pipeline_steps b)"
       "r = Inr () \<and> process_button req \<and> front_file req \<noteq> None \<and> back_file req \<noteq> None \<longrightarrow>
          prefix [SUpload ''cards/front.jpg'', SUpload ''cards/back.jpg''] (map step_of cs)"
    by blast
  from adds_new [OF c(1)] have n: "new_calls s s' = cs" by simp
  from prefix_map_filter [OF c(2), of step_key]
  show p: "prefix (upload_keys (new_calls s s')) [''cards/front.jpg'', ''cards/back.jpg'']"
    by (simp add: n upload_keys_steps pipeline_upload_keys)
  assume "r = Inr () \<and> process_button req \<and> front_file req \<noteq> None \<and> back_file req \<noteq> None"
  with c(3) have "prefix [SUpload ''cards/front.jpg'', SUpload ''cards/back.jpg'']
                    (map step_of cs)" by simp
  from prefix_map_filter [OF this, of step_key]
  have "prefix [''cards/front.jpg'', ''cards/back.jpg''] (upload_keys (new_calls s s'))"
    by (simp add: n upload_keys_steps List.map_filter_simps)
  with p show "upload_keys (new_calls s s') = [''cards/front.jpg'', ''cards/back.jpg'']"
    by (rule prefix_order.antisym)
qed

theorem upload_locator_and_keys_witness:
  "upload_to_s3 (demo_srv 100 quiet ''front'' ''back'') demo_secrets ''F'' ''front.jpg'' ''cards'' s0 =
     (Inr (Some ''s3://bkt/cards/front.jpg''),
      \<lparr>world = 1, calls = [UploadFileobj ''F'' ''bkt'' ''cards/front.jpg''], ui = []\<rparr>) \<and>
   upload_keys
     (new_calls s0
        (snd (main (demo_srv 100 quiet ''front'' ''back'') demo_secrets both_files s0))) =
     [''cards/front.jpg'', ''cards/back.jpg'']"
proof -
  have b: "demo_secrets ''AWS_BUCKET_NAME'' = Some ''bkt''"
    by (simp add: demo_secrets_def)
  from upload_locator_and_keys
         [of demo_secrets "''bkt''" "demo_srv 100 quiet ''front'' ''back''" "''F''"
             "''front.jpg''" s0 1 both_files "Inr ()"
             "snd (main (demo_srv 100 quiet ''front'' ''back'') demo_secrets both_files s0)", OF b]
  show ?thesis
    by (simp add: demo_run s0_simps)
       (simp add: demo_srv_def tick_def both_files_def s0_def)
qed

subsection \<open>Answers that are not JSON\<close>

text \<open>
  C2. When both uploads succeeded and OCR and question answering returned the answers
  \<open>front_result\<close> and \<open>back_result\<close>, and \<open>json.loads\<close> raises on one of them, then \<open>main\<close>
  returns normally, the only thing shown after the spinner is the message
  \<open>Error processing the card information\<close>, and no field of either side is shown, also
  not of a side whose answer did parse.
\<close>

theorem malformed_json_error:
  assumes "process_button req" "front_file req = Some ff" "back_file req = Some bf"
    and u1: "upload_to_s3 srv secrets ff ''front.jpg'' ''cards''
               (s\<lparr>ui := ui s @ [Spinner ''Processing your cards...'']\<rparr>) = (Inr (Some fp), s1)"
    and u2: "upload_to_s3 srv secrets bf ''back.jpg'' ''cards'' s1 = (Inr (Some bp), s2)"
    and ex: "extract_sides srv fp bp s2 = (Inr (front_result, back_result), s3)"
    and bad: "isl (json_loads srv front_result) \<or> isl (json_loads srv back_result)"
  shows "main srv secrets req s =
           (Inr (), s3\<lparr>ui := ui s3 @ [StError ''Error processing the card information'']\<rparr>) \<and>
         new_ui s (s3\<lparr>ui := ui s3 @ [StError ''Error processing the card information'']\<rparr>) =
           [Spinner ''Processing your cards...'',
            StError ''Error processing the card information''] \<and>
         filter is_field
           (new_ui s (s3\<lparr>ui := ui s3 @ [StError ''Error processing the card information'']\<rparr>)) = []"
proof -
  from upload_to_s3_Some [OF u1] have fp: "fp \<noteq> []"
    and i1: "ui s1 = ui s @ [Spinner ''Processing your cards...'']" by simp_all
  from upload_to_s3_Some [OF u2] have bp: "bp \<noteq> []" and i2: "ui s2 = ui s1" by simp_all
  from extract_sides_adds [OF ex] have i3: "ui s3 = ui s2" by (auto simp: adds_def)
  have "main srv secrets req s = process_cards srv fp bp s2"
    using assms(1-3) u1 u2 fp bp by (simp add: main_def andthen_def emit_def)
  with process_cards_malformed [OF ex bad] i1 i2 i3 show ?thesis
    by (simp add: new_ui_def)
qed

theorem malformed_json_error_witness:
  "main (demo_srv 100 quiet ''front'' ''not json'') demo_secrets both_files s0 =
     (Inr (),
      \<lparr>world = 16, calls = demo_calls,
       ui = [Spinner ''Processing your cards...'',
             StError ''Error processing the card information'']\<rparr>)"
  using malformed_json_error
          [of both_files "''F''" "''B''" "demo_srv 100 quiet ''front'' ''not json''" demo_secrets
              s0 "''s3://bkt/cards/front.jpg''"
              "\<lparr>world = 1, calls = take 1 demo_calls, ui = [Spinner ''Processing your cards...'']\<rparr>"
              "''s3://bkt/cards/back.jpg''"
              "\<lparr>world = 2, calls = take 2 demo_calls, ui = [Spinner ''Processing your cards...'']\<rparr>"
              "''front''" "''not json''"
              "\<lparr>world = 16, calls = demo_calls, ui = [Spinner ''Processing your cards...'']\<rparr>"]
  by (simp add: run_defs demo_defs queries_differ demo_calls_def)

subsection \<open>Upload failures\<close>

text \<open>
  C3. The upload of the back image fails with an exception that is not
  \<open>NoCredentialsError\<close>: the exception leaves \<open>upload_to_s3\<close>, the call in \<open>main\<close> is outside
  the \<open>try\<close>, and \<open>main\<close> ends with the exception. No message is shown after the spinner.
\<close>

theorem upload_failure_escapes:
  "main (demo_srv 1 (Exn OtherException ''AccessDenied'') ''front'' ''back'')
        demo_secrets both_files s0 =
     (Inl (Exn OtherException ''AccessDenied''),
      \<lparr>world = 2, calls = take 2 demo_calls, ui = [Spinner ''Processing your cards...'']\<rparr>)"
  by (simp add: run_defs demo_defs demo_calls_def)

subsection \<open>The text splitter of the specification\<close>

declare chunker.simps [simp del]

lemma chunker_empty: "chunker [] = []"
  by (simp add: chunker.simps)

lemma chunker_short: "t \<noteq> [] \<Longrightarrow> length t \<le> chunk_size \<Longrightarrow> chunker t = [t]"
  by (simp add: chunker.simps)

lemma chunker_long:
  "chunk_size < length t \<Longrightarrow>
     chunker t = take chunk_size t # chunker (drop (chunk_size - chunk_overlap) t)"
  by (subst chunker.simps) auto

lemma chunker_head:
  "t \<noteq> [] \<Longrightarrow> \<exists>cs. chunker t = take chunk_size t # cs"
  by (cases "length t \<le> chunk_size") (simp_all add: chunker_short chunker_long)

lemma chunker_lengths: "\<forall>c\<in>set (chunker t). length c \<le> chunk_size"
proof (induction t rule: chunker.induct)
  case (1 t)
  show ?case
  proof (cases "t = [] \<or> length t \<le> chunk_size")
    case True
    then show ?thesis by (cases "t = []") (simp_all add: chunker_empty chunker_short)
  next
    case False
    with "1" show ?thesis by (simp add: chunker_long)
  qed
qed

lemma chunker_overlapping: "overlapping chunk_overlap (chunker t)"
proof (induction t rule: chunker.induct)
  case (1 t)
  show ?case
  proof (cases "t = [] \<or> length t \<le> chunk_size")
    case True
    then show ?thesis by (cases "t = []") (simp_all add: chunker_empty chunker_short)
  next
    case False
    let ?r = "drop (chunk_size - chunk_overlap) t"
    from False have ne: "?r \<noteq> []" by (simp add: chunk_size_def chunk_overlap_def)
    from chunker_head [OF ne] obtain cs where cs: "chunker ?r = take chunk_size ?r # cs" ..
    from False "1" have ih: "overlapping chunk_overlap (chunker ?r)" by simp
    from False have "chunker t = take chunk_size t # take chunk_size ?r # cs"
      by (simp add: chunker_long cs)
    moreover from False have "chunk_overlap \<le> length (take chunk_size ?r)"
      by (auto simp: chunk_size_def chunk_overlap_def)
    moreover from False
    have "drop (length (take chunk_size t) - chunk_overlap) (take chunk_size t) =
            take chunk_overlap (take chunk_size ?r)"
      by (simp add: chunk_size_def chunk_overlap_def drop_take min_def)
    ultimately show ?thesis using False ih cs
      by (simp add: chunk_size_def chunk_overlap_def)
  qed
qed

lemma drop_append_short: "n \<le> length xs \<Longrightarrow> drop n xs @ ys = drop n (xs @ ys)"
  by simp

lemma chunker_reassemble: "reassemble chunk_overlap (chunker t) = t"
proof (induction t rule: chunker.induct)
  case (1 t)
  show ?case
  proof (cases "t = [] \<or> length t \<le> chunk_size")
    case True
    then show ?thesis by (cases "t = []") (simp_all add: chunker_empty chunker_short)
  next
    case False
    let ?r = "drop (chunk_size - chunk_overlap) t"
    from False have ne: "?r \<noteq> []" by (simp add: chunk_size_def chunk_overlap_def)
    from chunker_head [OF ne] obtain cs where cs: "chunker ?r = take chunk_size ?r # cs" ..
    from False "1" have "reassemble chunk_overlap (chunker ?r) = ?r" by simp
    with cs have ih: "take chunk_size ?r @ concat (map (drop chunk_overlap) cs) = ?r" by simp
    from False have len: "chunk_overlap \<le> length (take chunk_size ?r)"
      by (auto simp: chunk_size_def chunk_overlap_def)
    have "reassemble chunk_overlap (chunker t) =
            take chunk_size t @ drop chunk_overlap (take chunk_size ?r) @
            concat (map (drop chunk_overlap) cs)"
      using False by (simp add: chunker_long cs)
    also have "drop chunk_overlap (take chunk_size ?r) @ concat (map (drop chunk_overlap) cs) =
                 drop chunk_overlap (take chunk_size ?r @ concat (map (drop chunk_overlap) cs))"
      using len by (rule drop_append_short)
    also have "\<dots> = drop chunk_overlap ?r" by (simp only: ih)
    also have "\<dots> = drop chunk_size t" by (simp add: chunk_size_def chunk_overlap_def)
    finally show ?thesis by simp
  qed
qed

lemma length_concat_replicate: "length (concat (replicate n xs)) = n * length xs"
  by (induction n) simp_all

lemma sample_chunks:
  "chunker sample_text = [take 512 sample_text, drop 480 sample_text]"
proof -
  have l: "length sample_text = 600" by (simp add: sample_text_def length_concat_replicate)
  have "chunker (drop 480 sample_text) = [drop 480 sample_text]"
    by (rule chunker_short) (simp_all add: l chunk_size_def)
  with l show ?thesis
    by (simp add: chunker_long chunk_size_def chunk_overlap_def)
qed

text \<open>
  C1. For every text, the chunks of the splitter of the specification have at most 512
  characters, consecutive chunks overlap by 32 characters, and the chunks put together
  with the overlap removed are the text.
\<close>

theorem chunker_windows:
  "(\<forall>c\<in>set (chunker t). length c \<le> 512) \<and>
   overlapping 32 (chunker t) \<and>
   reassemble 32 (chunker t) = t"
  using chunker_lengths [of t] chunker_overlapping [of t] chunker_reassemble [of t]
  by (simp add: chunk_size_def chunk_overlap_def)

theorem chunker_windows_witness:
  "chunker sample_text = [take 512 sample_text, drop 480 sample_text] \<and>
   length (take 512 sample_text) \<le> 512 \<and>
   length (drop 480 sample_text) \<le> 512 \<and>
   overlapping 32 (chunker sample_text) \<and>
   reassemble 32 (chunker sample_text) = sample_text"
  using chunker_windows [of sample_text] sample_chunks
  by simp

text \<open>
  C6. A non-empty text of at most 512 characters is returned as one chunk, the text
  itself, and the empty text gives the empty sequence.
\<close>

theorem chunker_small:
  "(t \<noteq> [] \<and> length t \<le> 512 \<longrightarrow> chunker t = [t]) \<and> chunker [] = []"
  by (simp add: chunker_short chunker_empty chunk_size_def)

theorem chunker_small_witness:
  "chunker ''Name: A B ID: 784-1990-1234567-1'' = [''Name: A B ID: 784-1990-1234567-1'']"
  using chunker_small [of "''Name: A B ID: 784-1990-1234567-1''"]
  by simp

end
